theory Spec2Isabelle
  imports Main "HOL-Library.Sublist"
begin

section \<open>The video generation service (src/services/geminiService.ts)\<close>

text \<open>
  The module exports one asynchronous function, \<^verbatim>\<open>generateVideoFromImage\<close>, and has one
  private helper, \<^verbatim>\<open>fetchAndCreateUrl\<close>. Both talk to the outside world: the GenAI client
  (\<^verbatim>\<open>ai.models.generateVideos\<close>, \<^verbatim>\<open>ai.operations.getVideosOperation\<close>), \<^verbatim>\<open>fetch\<close>,
  \<^verbatim>\<open>URL.createObjectURL\<close>, \<^verbatim>\<open>setTimeout\<close>, \<^verbatim>\<open>console.error\<close> and the caller's
  \<^verbatim>\<open>onProgress\<close> callback.

  The embedding threads a state through the code. The state holds the outside world (of
  an arbitrary type \<open>'w\<close>, read and changed only by the remote calls) and the trace of
  everything the code did, in program order, each remote call with what it settled to.
  A thrown \<^verbatim>\<open>Error\<close> is the value \<open>Inl\<close> of its message; a polling loop that never
  ends is the value \<open>None\<close>. The \<^verbatim>\<open>onProgress\<close> callback, \<^verbatim>\<open>setTimeout\<close> and
  \<^verbatim>\<open>console.error\<close> are taken to return normally: they only add their event.
\<close>

subsection \<open>Data of the GenAI client\<close>

text \<open>
  The types of \<^verbatim>\<open>@google/genai\<close> that the code reads. Every field the library declares
  optional is an \<open>option\<close>; the optional chains of the source walk through them.
\<close>

record video =
  uri :: "string option"
  videoBytes :: "string option"
  video_mimeType :: "string option"

record generated_video =
  gv_video :: "video option"

record generate_videos_response =
  generatedVideos :: "generated_video list option"

record operation =
  op_name :: "string option"
  op_done :: "bool option"
  op_response :: "generate_videos_response option"

datatype aspect_ratio = AR_16_9 | AR_9_16

datatype video_duration = Short | Long

record image_payload =
  imageBytes :: string
  mimeType :: string

record generate_videos_config =
  numberOfVideos :: nat
  resolution :: string
  cfg_aspectRatio :: aspect_ratio

text \<open>The argument of \<^verbatim>\<open>ai.models.generateVideos\<close>; a key the object literal leaves out is \<open>None\<close>.\<close>

record generate_videos_parameters =
  req_model :: string
  req_prompt :: string
  req_image :: "image_payload option"
  req_video :: "video option"
  req_config :: generate_videos_config

text \<open>\<^verbatim>\<open>GenerateVideoParams\<close>; the \<^verbatim>\<open>onProgress\<close> callback is the \<open>Progress\<close> event of the trace.\<close>

record generate_video_params =
  prompt :: string
  imageBase64 :: string
  imageMimeType :: string
  aspectRatio :: aspect_ratio
  duration :: video_duration

text \<open>What \<^verbatim>\<open>fetch\<close> resolves to: \<^verbatim>\<open>ok\<close>, \<^verbatim>\<open>statusText\<close>, and what \<^verbatim>\<open>blob()\<close> settles to.\<close>

record http_response =
  ok :: bool
  statusText :: string
  blob :: "string + string"

subsection \<open>The outside world and the trace\<close>

datatype event =
    Progress string
  | Sleep nat
  | Submit generate_videos_parameters "string + operation"
  | Poll operation "string + operation"
  | Fetch string "string + http_response"
  | CreateObjectURL string string
  | ConsoleError string

record 'w env =
  models_generateVideos ::
    "string \<Rightarrow> generate_videos_parameters \<Rightarrow> 'w \<Rightarrow> (string + operation) \<times> 'w"
  operations_getVideosOperation ::
    "string \<Rightarrow> operation \<Rightarrow> 'w \<Rightarrow> (string + operation) \<times> 'w"
  window_fetch :: "string \<Rightarrow> 'w \<Rightarrow> (string + http_response) \<times> 'w"
  URL_createObjectURL :: "string \<Rightarrow> 'w \<Rightarrow> string \<times> 'w"

record 'w state =
  world :: 'w
  trace :: "event list"

definition emit :: "event \<Rightarrow> 'w state \<Rightarrow> 'w state" where
  "emit e st = st\<lparr>trace := trace st @ [e]\<rparr>"

text \<open>\<^verbatim>\<open>onProgress(message)\<close>\<close>

definition onProgress :: "string \<Rightarrow> 'w state \<Rightarrow> 'w state" where
  "onProgress message st = emit (Progress message) st"

text \<open>\<^verbatim>\<open>await new Promise(resolve => setTimeout(resolve, ms))\<close>\<close>

definition sleep :: "nat \<Rightarrow> 'w state \<Rightarrow> 'w state" where
  "sleep ms st = emit (Sleep ms) st"

text \<open>\<^verbatim>\<open>await ai.models.generateVideos(request)\<close>, with the client built from \<open>apiKey\<close>.\<close>

definition generateVideos ::
  "'w env \<Rightarrow> string \<Rightarrow> generate_videos_parameters \<Rightarrow> 'w state
    \<Rightarrow> (string + operation) \<times> 'w state" where
  "generateVideos env apiKey request st =
     (case models_generateVideos env apiKey request (world st) of
        (r, w) \<Rightarrow> (r, \<lparr>world = w, trace = trace st @ [Submit request r]\<rparr>))"

text \<open>\<^verbatim>\<open>await ai.operations.getVideosOperation({ operation: operation })\<close>\<close>

definition getVideosOperation ::
  "'w env \<Rightarrow> string \<Rightarrow> operation \<Rightarrow> 'w state \<Rightarrow> (string + operation) \<times> 'w state" where
  "getVideosOperation env apiKey operation st =
     (case operations_getVideosOperation env apiKey operation (world st) of
        (r, w) \<Rightarrow> (r, \<lparr>world = w, trace = trace st @ [Poll operation r]\<rparr>))"

subsection \<open>JavaScript helpers\<close>

text \<open>
  \<^verbatim>\<open>!x\<close> on a \<^verbatim>\<open>string | undefined\<close>: undefined and the empty string are falsy.
\<close>

definition truthy :: "string option \<Rightarrow> bool" where
  "truthy x = (case x of None \<Rightarrow> False | Some s \<Rightarrow> s \<noteq> [])"

text \<open>\<^verbatim>\<open>!operation.done\<close> on a \<^verbatim>\<open>boolean | undefined\<close>.\<close>

definition is_done :: "operation \<Rightarrow> bool" where
  "is_done operation = (op_done operation = Some True)"

text \<open>\<^verbatim>\<open>s.includes(t)\<close>: \<open>t\<close> occurs in \<open>s\<close> as a contiguous run of characters.\<close>

fun str_includes :: "string \<Rightarrow> string \<Rightarrow> bool" where
  "str_includes [] t = (t = [])"
| "str_includes (c # cs) t = (prefix t (c # cs) \<or> str_includes cs t)"

text \<open>\<^verbatim>\<open>operation.response?.generatedVideos?.[0]?.video\<close>\<close>

definition first_video :: "operation \<Rightarrow> video option" where
  "first_video operation =
     (case op_response operation of
        None \<Rightarrow> None
      | Some r \<Rightarrow>
          (case generatedVideos r of
             None \<Rightarrow> None
           | Some [] \<Rightarrow> None
           | Some (g # _) \<Rightarrow> gv_video g))"

text \<open>\<^verbatim>\<open>operation.response?.generatedVideos?.[0]?.video?.uri\<close>\<close>

definition video_uri :: "operation \<Rightarrow> string option" where
  "video_uri operation = (case first_video operation of None \<Rightarrow> None | Some v \<Rightarrow> uri v)"

subsection \<open>fetchAndCreateUrl\<close>

definition fetchAndCreateUrl ::
  "'w env \<Rightarrow> string \<Rightarrow> string \<Rightarrow> 'w state \<Rightarrow> (string + string) \<times> 'w state" where
  "fetchAndCreateUrl env downloadLink apiKey st =
     (let url = downloadLink @ ''&key='' @ apiKey in
      case window_fetch env url (world st) of
        (r, w) \<Rightarrow>
          (let st1 = \<lparr>world = w, trace = trace st @ [Fetch url r]\<rparr> in
           case r of
             Inl e \<Rightarrow> (Inl e, st1)
           | Inr response \<Rightarrow>
               if \<not> ok response
               then (Inl (''Failed to download video: '' @ statusText response), st1)
               else
                 (case blob response of
                    Inl e \<Rightarrow> (Inl e, st1)
                  | Inr videoBlob \<Rightarrow>
                      (case URL_createObjectURL env videoBlob (world st1) of
                         (u, w') \<Rightarrow>
                           (Inr u, \<lparr>world = w',
                                    trace = trace st1 @ [CreateObjectURL videoBlob u]\<rparr>)))))"

subsection \<open>The polling loop\<close>

text \<open>
  Lines 62-66 and 101-105 are the same loop on two variables:
  \<^verbatim>\<open>while (!operation.done) { await sleep(20000); operation = await getVideosOperation(operation); }\<close>
  A poll that throws leaves the loop with the error; a loop that never sees
  \<^verbatim>\<open>done\<close> never returns, which is \<open>None\<close>.
\<close>

partial_function (option) pollUntilDone ::
  "'w env \<Rightarrow> string \<Rightarrow> operation \<Rightarrow> 'w state \<Rightarrow> ((string + operation) \<times> 'w state) option" where
  "pollUntilDone env apiKey operation st =
     (if is_done operation then Some (Inr operation, st)
      else
        (case getVideosOperation env apiKey operation (sleep 20000 st) of
           (Inl e, st') \<Rightarrow> Some (Inl e, st')
         | (Inr operation', st') \<Rightarrow> pollUntilDone env apiKey operation' st'))"

declare pollUntilDone.simps [code]

subsection \<open>generateVideoFromImage\<close>

text \<open>The object literal of lines 46-58.\<close>

definition initial_request :: "generate_video_params \<Rightarrow> generate_videos_parameters" where
  "initial_request params =
     \<lparr>req_model = ''veo-3.1-fast-generate-preview'',
      req_prompt = prompt params,
      req_image = Some \<lparr>imageBytes = imageBase64 params, mimeType = imageMimeType params\<rparr>,
      req_video = None,
      req_config = \<lparr>numberOfVideos = 1, resolution = ''720p'',
                    cfg_aspectRatio = aspectRatio params\<rparr>\<rparr>"

text \<open>The object literal of lines 90-99.\<close>

definition extension_request ::
  "generate_video_params \<Rightarrow> video \<Rightarrow> generate_videos_parameters" where
  "extension_request params previousVideo =
     \<lparr>req_model = ''veo-3.1-generate-preview'',
      req_prompt = prompt params,
      req_image = None,
      req_video = Some previousVideo,
      req_config = \<lparr>numberOfVideos = 1, resolution = ''720p'',
                    cfg_aspectRatio = aspectRatio params\<rparr>\<rparr>"

text \<open>
  How the \<^verbatim>\<open>try\<close> block is left. It either throws, or reaches one of its two
  \<^verbatim>\<open>return fetchAndCreateUrl(link, apiKey)\<close> statements. Neither of them awaits the
  promise: the block is left with a pending promise, so \<open>Returned link\<close> carries the
  link and the download settles outside the \<^verbatim>\<open>try\<close>.
\<close>

datatype completion = Thrown string | Returned string

text \<open>Lines 84-113, the part of the \<^verbatim>\<open>try\<close> block that only a long video reaches.\<close>

definition extension_stage ::
  "'w env \<Rightarrow> string \<Rightarrow> generate_video_params \<Rightarrow> operation \<Rightarrow> 'w state
    \<Rightarrow> (completion \<times> 'w state) option" where
  "extension_stage env apiKey params firstOperation st =
     (let st1 = onProgress ''Extending video... this will take a few more minutes.'' st in
      case first_video firstOperation of
        None \<Rightarrow> Some (Thrown ''Failed to get initial video for extension.'', st1)
      | Some previousVideo \<Rightarrow>
          (case generateVideos env apiKey (extension_request params previousVideo) st1 of
             (Inl e, st2) \<Rightarrow> Some (Thrown e, st2)
           | (Inr extensionOperation, st2) \<Rightarrow>
               (case pollUntilDone env apiKey extensionOperation st2 of
                  None \<Rightarrow> None
                | Some (Inl e, st3) \<Rightarrow> Some (Thrown e, st3)
                | Some (Inr extensionOperation', st3) \<Rightarrow>
                    (case video_uri extensionOperation' of
                       None \<Rightarrow>
                         Some (Thrown ''Video extension failed: No download link was returned.'', st3)
                     | Some extendedDownloadLink \<Rightarrow>
                         if extendedDownloadLink = []
                         then Some (Thrown ''Video extension failed: No download link was returned.'', st3)
                         else Some (Returned extendedDownloadLink,
                                    onProgress ''Downloading your extended video...'' st3)))))"

text \<open>Lines 45-113, the \<^verbatim>\<open>try\<close> block.\<close>

definition try_block ::
  "'w env \<Rightarrow> string \<Rightarrow> generate_video_params \<Rightarrow> 'w state \<Rightarrow> (completion \<times> 'w state) option" where
  "try_block env apiKey params st =
     (case generateVideos env apiKey (initial_request params)
             (onProgress ''Warming up the creativity engine...'' st) of
        (Inl e, st1) \<Rightarrow> Some (Thrown e, st1)
      | (Inr firstOperation, st1) \<Rightarrow>
          (case pollUntilDone env apiKey firstOperation
                  (onProgress ''Generating initial scene... this can take a few minutes.'' st1) of
             None \<Rightarrow> None
           | Some (Inl e, st2) \<Rightarrow> Some (Thrown e, st2)
           | Some (Inr firstOperation', st2) \<Rightarrow>
               (let st3 = (if duration params = Long
                           then sleep 3000 (onProgress ''Finalizing initial scene...'' st2)
                           else st2) in
                if duration params = Short
                then
                  (case video_uri firstOperation' of
                     None \<Rightarrow>
                       Some (Thrown ''Video generation failed: No download link was returned.'', st3)
                   | Some downloadLink \<Rightarrow>
                       if downloadLink = []
                       then Some (Thrown ''Video generation failed: No download link was returned.'', st3)
                       else Some (Returned downloadLink, onProgress ''Downloading your video...'' st3))
                else extension_stage env apiKey params firstOperation' st3)))"

text \<open>
  Lines 115-125, the \<^verbatim>\<open>catch\<close> block: the message of the \<^verbatim>\<open>Error\<close> it throws for a caught
  error with the given message. \<^verbatim>\<open>error.message && ...\<close> is false on the empty message,
  and \<^verbatim>\<open>error.message || fallback\<close> is the fallback there.
\<close>

definition catch_message :: "string \<Rightarrow> string" where
  "catch_message message =
     (if message \<noteq> [] \<and>
         (str_includes message ''RESOURCE_EXHAUSTED'' \<or> str_includes message ''429'')
      then ''Rate limit exceeded. You've made too many requests in a short period. Please wait a moment and try again.''
      else if message \<noteq> [] \<and> str_includes message ''Requested entity was not found''
      then ''API key is invalid or not found. Please re-select your API key.''
      else if message \<noteq> [] then message
      else ''An unknown error occurred while communicating with the API.'')"

definition catch_block :: "string \<Rightarrow> 'w state \<Rightarrow> (string + string) \<times> 'w state" where
  "catch_block message st = (Inl (catch_message message), emit (ConsoleError message) st)"

text \<open>
  The exported function. \<open>apiKey\<close> is \<^verbatim>\<open>process.env.API_KEY\<close>; the check of lines 36-39 is
  outside the \<^verbatim>\<open>try\<close>. An error thrown inside the \<^verbatim>\<open>try\<close> block goes through the
  \<^verbatim>\<open>catch\<close> block. The promise of \<^verbatim>\<open>fetchAndCreateUrl\<close> is returned without
  \<^verbatim>\<open>await\<close>, so the promise of \<^verbatim>\<open>generateVideoFromImage\<close> settles as that promise does,
  rejection included, without entering the \<^verbatim>\<open>catch\<close> block.
\<close>

definition generateVideoFromImage ::
  "'w env \<Rightarrow> string option \<Rightarrow> generate_video_params \<Rightarrow> 'w state
    \<Rightarrow> ((string + string) \<times> 'w state) option" where
  "generateVideoFromImage env apiKey params st =
     (case apiKey of
        None \<Rightarrow> Some (Inl ''API Key not found. Please select an API key.'', st)
      | Some key \<Rightarrow>
          if key = [] then Some (Inl ''API Key not found. Please select an API key.'', st)
          else
            (case try_block env key params st of
               None \<Rightarrow> None
             | Some (Thrown message, st') \<Rightarrow> Some (catch_block message st')
             | Some (Returned downloadLink, st') \<Rightarrow>
                 Some (fetchAndCreateUrl env downloadLink key st')))"

subsection \<open>The string literals of the source\<close>

abbreviation (input) warming_up :: string where
  "warming_up \<equiv> ''Warming up the creativity engine...''"

abbreviation (input) generating :: string where
  "generating \<equiv> ''Generating initial scene... this can take a few minutes.''"

abbreviation (input) finalizing :: string where
  "finalizing \<equiv> ''Finalizing initial scene...''"

abbreviation (input) extending :: string where
  "extending \<equiv> ''Extending video... this will take a few more minutes.''"

abbreviation (input) downloading :: string where
  "downloading \<equiv> ''Downloading your video...''"

abbreviation (input) downloading_extended :: string where
  "downloading_extended \<equiv> ''Downloading your extended video...''"

abbreviation (input) no_api_key :: string where
  "no_api_key \<equiv> ''API Key not found. Please select an API key.''"

abbreviation (input) no_download_link :: string where
  "no_download_link \<equiv> ''Video generation failed: No download link was returned.''"

abbreviation (input) no_initial_video :: string where
  "no_initial_video \<equiv> ''Failed to get initial video for extension.''"

abbreviation (input) no_extension_link :: string where
  "no_extension_link \<equiv> ''Video extension failed: No download link was returned.''"

abbreviation (input) rate_limit_exceeded :: string where
  "rate_limit_exceeded \<equiv>
     ''Rate limit exceeded. You've made too many requests in a short period. Please wait a moment and try again.''"

abbreviation (input) api_key_invalid :: string where
  "api_key_invalid \<equiv> ''API key is invalid or not found. Please re-select your API key.''"

abbreviation (input) unknown_error :: string where
  "unknown_error \<equiv> ''An unknown error occurred while communicating with the API.''"

subsection \<open>Reading a trace\<close>

text \<open>The messages given to \<^verbatim>\<open>onProgress\<close>, in order.\<close>

definition progress_of :: "event list \<Rightarrow> string list" where
  "progress_of tr = concat (map (\<lambda>e. case e of Progress m \<Rightarrow> [m] | _ \<Rightarrow> []) tr)"

text \<open>The calls of \<^verbatim>\<open>ai.models.generateVideos\<close> with what each settled to, in order.\<close>

definition submits ::
  "event list \<Rightarrow> (generate_videos_parameters \<times> (string + operation)) list" where
  "submits tr = concat (map (\<lambda>e. case e of Submit request r \<Rightarrow> [(request, r)] | _ \<Rightarrow> []) tr)"

text \<open>The URLs given to \<^verbatim>\<open>fetch\<close>, in order.\<close>

definition fetches :: "event list \<Rightarrow> string list" where
  "fetches tr = concat (map (\<lambda>e. case e of Fetch url r \<Rightarrow> [url] | _ \<Rightarrow> []) tr)"

text \<open>The errors that entered the \<^verbatim>\<open>catch\<close> block (it logs each with \<^verbatim>\<open>console.error\<close>).\<close>

definition console_errors :: "event list \<Rightarrow> string list" where
  "console_errors tr = concat (map (\<lambda>e. case e of ConsoleError m \<Rightarrow> [m] | _ \<Rightarrow> []) tr)"

text \<open>
  The operations the remote service reported as done, in order: every snapshot with
  \<^verbatim>\<open>done\<close> true that a submission or a poll resolved to.
\<close>

definition completions :: "event list \<Rightarrow> operation list" where
  "completions tr =
     concat (map (\<lambda>e. case e of
                         Submit request (Inr operation) \<Rightarrow> if is_done operation then [operation] else []
                       | Poll polled (Inr operation) \<Rightarrow> if is_done operation then [operation] else []
                       | _ \<Rightarrow> []) tr)"

text \<open>
  \<open>poll_trace operation tr r\<close>: the events \<open>tr\<close> are a run of the polling loop that starts
  with the snapshot \<open>operation\<close> and ends with \<open>r\<close>. A done snapshot ends the loop at once
  with itself; a snapshot that is not done is followed by one wait of 20000 ms and one poll
  of that very snapshot, whose answer is the next snapshot, or the error that ends the loop.
\<close>

fun poll_trace :: "operation \<Rightarrow> event list \<Rightarrow> (string + operation) \<Rightarrow> bool" where
  "poll_trace operation [] r = (is_done operation \<and> r = Inr operation)"
| "poll_trace operation (Sleep ms # Poll polled (Inr operation') # tr) r =
     (\<not> is_done operation \<and> ms = 20000 \<and> polled = operation \<and> poll_trace operation' tr r)"
| "poll_trace operation (Sleep ms # Poll polled (Inl e) # tr) r =
     (\<not> is_done operation \<and> ms = 20000 \<and> polled = operation \<and> tr = [] \<and> r = Inl e)"
| "poll_trace operation (e # tr) r = False"

text \<open>The waits, in order, and the snapshots that were polled, in order.\<close>

definition sleeps :: "event list \<Rightarrow> nat list" where
  "sleeps tr = concat (map (\<lambda>e. case e of Sleep ms \<Rightarrow> [ms] | _ \<Rightarrow> []) tr)"

definition polls :: "event list \<Rightarrow> operation list" where
  "polls tr = concat (map (\<lambda>e. case e of Poll operation r \<Rightarrow> [operation] | _ \<Rightarrow> []) tr)"

text \<open>
  \<open>download_trace url tr res\<close>: the events \<open>tr\<close> are a run of \<^verbatim>\<open>fetchAndCreateUrl\<close> that
  fetches \<open>url\<close> and settles to \<open>res\<close>: one fetch, and one object URL when the response is
  ok and its body can be read.
\<close>

fun download_trace :: "string \<Rightarrow> event list \<Rightarrow> (string + string) \<Rightarrow> bool" where
  "download_trace url [Fetch fetched (Inl e)] res = (fetched = url \<and> res = Inl e)"
| "download_trace url [Fetch fetched (Inr response)] res =
     (fetched = url \<and>
      (if \<not> ok response then res = Inl (''Failed to download video: '' @ statusText response)
       else case blob response of Inl e \<Rightarrow> res = Inl e | Inr videoBlob \<Rightarrow> False))"
| "download_trace url [Fetch fetched (Inr response), CreateObjectURL videoBlob created] res =
     (fetched = url \<and> ok response \<and> blob response = Inr videoBlob \<and> res = Inr created)"
| "download_trace url tr res = False"

subsection \<open>A scripted remote service\<close>

text \<open>
  A concrete outside world to run the code on. The world counts the polls answered
  since the last submission. A submission answers with a pending operation named after
  the requested model; the \<open>n\<close>-th poll of it (at the latest) answers with a done operation
  whose first generated video is \<open>v1\<close> for the fast model and \<open>v2\<close> otherwise. Every
  download answers \<open>download\<close>.
\<close>

definition pending_operation :: "string \<Rightarrow> operation" where
  "pending_operation name = \<lparr>op_name = Some name, op_done = None, op_response = None\<rparr>"

definition finished_operation :: "string option \<Rightarrow> video option \<Rightarrow> operation" where
  "finished_operation name v =
     \<lparr>op_name = name, op_done = Some True,
      op_response = Some \<lparr>generatedVideos = Some [\<lparr>gv_video = v\<rparr>]\<rparr>\<rparr>"

definition scripted_env ::
  "nat \<Rightarrow> video option \<Rightarrow> video option \<Rightarrow> (string + http_response) \<Rightarrow> nat env" where
  "scripted_env n v1 v2 download =
     \<lparr>models_generateVideos =
        (\<lambda>key request w. (Inr (pending_operation (req_model request)), 0)),
      operations_getVideosOperation =
        (\<lambda>key operation w.
           (if n \<le> Suc w
            then Inr (finished_operation (op_name operation)
                        (if op_name operation = Some ''veo-3.1-fast-generate-preview''
                         then v1 else v2))
            else Inr operation,
            Suc w)),
      window_fetch = (\<lambda>url w. (download, w)),
      URL_createObjectURL = (\<lambda>videoBlob w. (''blob:'' @ videoBlob, w))\<rparr>"

definition video_at :: "string \<Rightarrow> video" where
  "video_at link = \<lparr>uri = Some link, videoBytes = None, video_mimeType = Some ''video/mp4''\<rparr>"

definition request_of :: "video_duration \<Rightarrow> generate_video_params" where
  "request_of d =
     \<lparr>prompt = ''a cat'', imageBase64 = ''aGk='', imageMimeType = ''image/png'',
      aspectRatio = AR_16_9, duration = d\<rparr>"


definition start :: "nat state" where
  "start = \<lparr>world = 0, trace = []\<rparr>"

text \<open>A download that succeeds, one that the server refuses, and the operations of the script.\<close>

definition ok_download :: "string + http_response" where
  "ok_download = Inr \<lparr>ok = True, statusText = ''OK'', blob = Inr ''bytes''\<rparr>"

definition refused_download :: "string + http_response" where
  "refused_download = Inr \<lparr>ok = False, statusText = ''RESOURCE_EXHAUSTED'', blob = Inl ''''\<rparr>"

abbreviation (input) fast_pending :: operation where
  "fast_pending \<equiv> pending_operation ''veo-3.1-fast-generate-preview''"

abbreviation (input) fast_finished :: "video option \<Rightarrow> operation" where
  "fast_finished v \<equiv> finished_operation (Some ''veo-3.1-fast-generate-preview'') v"

abbreviation (input) ext_pending :: operation where
  "ext_pending \<equiv> pending_operation ''veo-3.1-generate-preview''"

abbreviation (input) ext_finished :: "video option \<Rightarrow> operation" where
  "ext_finished v \<equiv> finished_operation (Some ''veo-3.1-generate-preview'') v"

section \<open>Traces of the code\<close>

subsection \<open>The polling loop\<close>

lemma pollUntilDone_trace_aux:
  assumes "pollUntilDone env k operation st = Some y"
  shows "\<exists>tr. trace (snd y) = trace st @ tr \<and> poll_trace operation tr (fst y)"
proof (rule pollUntilDone.raw_induct
    [where P = "\<lambda>env k operation st y.
                  \<exists>tr. trace (snd y) = trace st @ tr \<and> poll_trace operation tr (fst y)",
     OF _ assms])
  fix f :: "'a env \<Rightarrow> string \<Rightarrow> operation \<Rightarrow> 'a state \<Rightarrow> ((string + operation) \<times> 'a state) option"
  fix env k operation st y
  assume IH: "\<And>env k operation st y. f env k operation st = Some y \<Longrightarrow>
                \<exists>tr. trace (snd y) = trace st @ tr \<and> poll_trace operation tr (fst y)"
    and step: "(if is_done operation then Some (Inr operation, st)
                else case getVideosOperation env k operation (sleep 20000 st) of
                       (Inl e, st') \<Rightarrow> Some (Inl e, st')
                     | (Inr operation', st') \<Rightarrow> f env k operation' st') = Some y"
  show "\<exists>tr. trace (snd y) = trace st @ tr \<and> poll_trace operation tr (fst y)"
  proof (cases "is_done operation")
    case True
    with step show ?thesis by auto
  next
    case False
    obtain res w where call: "operations_getVideosOperation env k operation (world st) = (res, w)"
      by (cases "operations_getVideosOperation env k operation (world st)")
    show ?thesis
    proof (cases res)
      case (Inl e)
      with step False call show ?thesis
        by (auto simp: getVideosOperation_def sleep_def emit_def)
    next
      case (Inr operation')
      with step False call
      have "f env k operation' \<lparr>world = w, trace = trace st @ [Sleep 20000, Poll operation (Inr operation')]\<rparr> = Some y"
        by (auto simp: getVideosOperation_def sleep_def emit_def)
      from IH[OF this] obtain tr where
        "trace (snd y) = (trace st @ [Sleep 20000, Poll operation (Inr operation')]) @ tr"
        "poll_trace operation' tr (fst y)" by auto
      with False show ?thesis by auto
    qed
  qed
qed

lemma pollUntilDone_trace:
  assumes "pollUntilDone env k operation st = Some (r, st')"
  obtains tr where "trace st' = trace st @ tr" and "poll_trace operation tr r"
  using pollUntilDone_trace_aux[OF assms] by auto

lemma generateVideos_trace:
  assumes "generateVideos env k request st = (r, st')"
  shows "trace st' = trace st @ [Submit request r]"
  using assms by (auto simp: generateVideos_def split: prod.splits)

lemma onProgress_trace [simp]: "trace (onProgress m st) = trace st @ [Progress m]"
  by (simp add: onProgress_def emit_def)

lemma sleep_trace [simp]: "trace (sleep ms st) = trace st @ [Sleep ms]"
  by (simp add: sleep_def emit_def)

lemma truthy_simps [simp]:
  "truthy None = False" "truthy (Some s) = (s \<noteq> [])"
  by (simp_all add: truthy_def)

lemma extension_stage_cases:
  assumes "extension_stage env k p op1 st = Some (c, st')"
  obtains
    (no_video) "first_video op1 = None" "c = Thrown no_initial_video"
      "trace st' = trace st @ [Progress extending]"
  | (submit_throws) v e where "first_video op1 = Some v" "c = Thrown e"
      "trace st' = trace st @ [Progress extending, Submit (extension_request p v) (Inl e)]"
  | (poll_throws) v op2 tr2 e where "first_video op1 = Some v" "c = Thrown e"
      "poll_trace op2 tr2 (Inl e)"
      "trace st' = trace st @ [Progress extending, Submit (extension_request p v) (Inr op2)] @ tr2"
  | (no_link) v op2 tr2 op3 where "first_video op1 = Some v" "c = Thrown no_extension_link"
      "poll_trace op2 tr2 (Inr op3)" "\<not> truthy (video_uri op3)"
      "trace st' = trace st @ [Progress extending, Submit (extension_request p v) (Inr op2)] @ tr2"
  | (returns) v op2 tr2 op3 link where "first_video op1 = Some v" "c = Returned link"
      "poll_trace op2 tr2 (Inr op3)" "video_uri op3 = Some link" "link \<noteq> []"
      "trace st' = trace st @ [Progress extending, Submit (extension_request p v) (Inr op2)] @ tr2
                     @ [Progress downloading_extended]"
proof (cases "first_video op1")
  case None
  with assms show ?thesis
    by (intro no_video) (auto simp: extension_stage_def)
next
  case (Some v)
  obtain r st2 where sub: "generateVideos env k (extension_request p v) (onProgress extending st) = (r, st2)"
    by (cases "generateVideos env k (extension_request p v) (onProgress extending st)")
  from generateVideos_trace[OF sub]
  have tr2: "trace st2 = trace st @ [Progress extending, Submit (extension_request p v) r]" by simp
  show ?thesis
  proof (cases r)
    case (Inl e)
    with assms Some sub tr2 show ?thesis
      by (intro submit_throws[of v e]) (auto simp: extension_stage_def)
  next
    case (Inr op2)
    with assms Some sub obtain r3 st3 where poll: "pollUntilDone env k op2 st2 = Some (r3, st3)"
      by (auto simp: extension_stage_def split: option.splits)
    from pollUntilDone_trace[OF poll] obtain tr where
      tr: "trace st3 = trace st2 @ tr" "poll_trace op2 tr r3" by blast
    show ?thesis
    proof (cases r3)
      case (Inl e)
      with assms Some sub Inr poll tr tr2 show ?thesis
        by (intro poll_throws[of v e op2 tr]) (auto simp: extension_stage_def)
    next
      case r3: (Inr op3)
      show ?thesis
      proof (cases "truthy (video_uri op3)")
        case False
        with assms Some sub Inr poll tr tr2 r3 show ?thesis
          by (intro no_link[of v op2 tr op3])
            (auto simp: extension_stage_def split: option.splits if_splits)
      next
        case True
        then obtain link where "video_uri op3 = Some link" "link \<noteq> []"
          by (cases "video_uri op3") auto
        with assms Some sub Inr poll tr tr2 r3 show ?thesis
          by (intro returns[of v link op2 tr op3]) (auto simp: extension_stage_def)
      qed
    qed
  qed
qed


lemma try_block_cases:
  assumes "try_block env k p st = Some (c, st')"
  obtains
    (initial_submit_throws) e where "c = Thrown e"
      "trace st' = trace st @ [Progress warming_up, Submit (initial_request p) (Inl e)]"
  | (initial_poll_throws) op0 tr1 e where "c = Thrown e" "poll_trace op0 tr1 (Inl e)"
      "trace st' = trace st @ [Progress warming_up, Submit (initial_request p) (Inr op0),
                               Progress generating] @ tr1"
  | (short_no_link) op0 tr1 op1 where "duration p = Short" "c = Thrown no_download_link"
      "poll_trace op0 tr1 (Inr op1)" "\<not> truthy (video_uri op1)"
      "trace st' = trace st @ [Progress warming_up, Submit (initial_request p) (Inr op0),
                               Progress generating] @ tr1"
  | (short_returns) op0 tr1 op1 link where "duration p = Short" "c = Returned link"
      "poll_trace op0 tr1 (Inr op1)" "video_uri op1 = Some link" "link \<noteq> []"
      "trace st' = trace st @ [Progress warming_up, Submit (initial_request p) (Inr op0),
                               Progress generating] @ tr1 @ [Progress downloading]"
  | (long_extension) op0 tr1 op1 st3 where "duration p = Long"
      "poll_trace op0 tr1 (Inr op1)"
      "trace st3 = trace st @ [Progress warming_up, Submit (initial_request p) (Inr op0),
                               Progress generating] @ tr1 @ [Progress finalizing, Sleep 3000]"
      "extension_stage env k p op1 st3 = Some (c, st')"
proof -
  obtain r st1 where sub:
    "generateVideos env k (initial_request p) (onProgress warming_up st) = (r, st1)"
    by (cases "generateVideos env k (initial_request p) (onProgress warming_up st)")
  from generateVideos_trace[OF sub]
  have tr1: "trace st1 = trace st @ [Progress warming_up, Submit (initial_request p) r]"
    by simp
  show ?thesis
  proof (cases r)
    case (Inl e)
    with assms sub tr1 show ?thesis
      by (intro initial_submit_throws[of e]) (auto simp: try_block_def)
  next
    case (Inr op0)
    with assms sub obtain r2 st2 where
      poll: "pollUntilDone env k op0 (onProgress generating st1) = Some (r2, st2)"
      by (auto simp: try_block_def split: option.splits)
    from pollUntilDone_trace[OF poll] obtain tr where
      tr: "trace st2 = trace (onProgress generating st1) @ tr" "poll_trace op0 tr r2" by blast
    show ?thesis
    proof (cases r2)
      case (Inl e)
      with assms sub Inr poll tr tr1 show ?thesis
        by (intro initial_poll_throws[of e op0 tr]) (auto simp: try_block_def)
    next
      case r2: (Inr op1)
      show ?thesis
      proof (cases "duration p")
        case Short
        show ?thesis
        proof (cases "truthy (video_uri op1)")
          case False
          with assms sub Inr poll tr tr1 r2 Short show ?thesis
            by (intro short_no_link[of op0 tr op1])
              (auto simp: try_block_def split: option.splits if_splits)
        next
          case True
          then obtain link where "video_uri op1 = Some link" "link \<noteq> []"
            by (cases "video_uri op1") auto
          with assms sub Inr poll tr tr1 r2 Short show ?thesis
            by (intro short_returns[of link op0 tr op1]) (auto simp: try_block_def)
        qed
      next
        case Long
        with assms sub Inr poll r2
        have ext: "extension_stage env k p op1 (sleep 3000 (onProgress finalizing st2)) = Some (c, st')"
          by (simp add: try_block_def)
        from tr tr1 Inr r2 Long show ?thesis
          by (intro long_extension[of op0 tr op1, OF _ _ _ ext]) auto
      qed
    qed
  qed
qed

lemma fetchAndCreateUrl_cases:
  assumes "fetchAndCreateUrl env link key st = (res, st')"
  obtains
    (fetch_throws) e where "res = Inl e"
      "trace st' = trace st @ [Fetch (link @ ''&key='' @ key) (Inl e)]"
  | (not_ok) response where "\<not> ok response"
      "res = Inl (''Failed to download video: '' @ statusText response)"
      "trace st' = trace st @ [Fetch (link @ ''&key='' @ key) (Inr response)]"
  | (blob_throws) response e where "ok response" "blob response = Inl e" "res = Inl e"
      "trace st' = trace st @ [Fetch (link @ ''&key='' @ key) (Inr response)]"
  | (created) response videoBlob url where "ok response" "blob response = Inr videoBlob"
      "res = Inr url"
      "trace st' = trace st @ [Fetch (link @ ''&key='' @ key) (Inr response),
                               CreateObjectURL videoBlob url]"
proof -
  obtain r w where call: "window_fetch env (link @ ''&key='' @ key) (world st) = (r, w)"
    by (cases "window_fetch env (link @ ''&key='' @ key) (world st)")
  show ?thesis
  proof (cases r)
    case (Inl e)
    with assms call show ?thesis
      by (intro fetch_throws[of e]) (auto simp: fetchAndCreateUrl_def)
  next
    case (Inr response)
    show ?thesis
    proof (cases "ok response")
      case False
      with assms call Inr show ?thesis
        by (intro not_ok[of response]) (auto simp: fetchAndCreateUrl_def)
    next
      case True
      show ?thesis
      proof (cases "blob response")
        case (Inl e)
        with assms call Inr True show ?thesis
          by (intro blob_throws[of response e]) (auto simp: fetchAndCreateUrl_def)
      next
        case b: (Inr videoBlob)
        obtain u w' where "URL_createObjectURL env videoBlob w = (u, w')"
          by (cases "URL_createObjectURL env videoBlob w")
        with assms call Inr True b show ?thesis
          by (intro created[of response videoBlob u]) (auto simp: fetchAndCreateUrl_def)
      qed
    qed
  qed
qed

lemma generateVideoFromImage_cases:
  assumes "generateVideoFromImage env (Some key) p st = Some (res, st')" and "key \<noteq> []"
  obtains
    (thrown) message st1 where "try_block env key p st = Some (Thrown message, st1)"
      "res = Inl (catch_message message)" "trace st' = trace st1 @ [ConsoleError message]"
  | (returned) link st1 where "try_block env key p st = Some (Returned link, st1)"
      "fetchAndCreateUrl env link key st1 = (res, st')"
proof -
  from assms obtain c st1 where tb: "try_block env key p st = Some (c, st1)"
    by (auto simp: generateVideoFromImage_def split: option.splits)
  show ?thesis
  proof (cases c)
    case (Thrown message)
    with assms tb show ?thesis
      by (intro thrown[of message st1]) (auto simp: generateVideoFromImage_def catch_block_def emit_def)
  next
    case (Returned link)
    with assms tb show ?thesis
      by (intro returned[of link st1]) (auto simp: generateVideoFromImage_def)
  qed
qed

subsection \<open>Reading the traces\<close>

lemma progress_of_simps [simp]:
  "progress_of [] = []"
  "progress_of (tr @ tr') = progress_of tr @ progress_of tr'"
  "progress_of (Progress m # tr) = m # progress_of tr"
  "progress_of (Sleep ms # tr) = progress_of tr"
  "progress_of (Submit request r # tr) = progress_of tr"
  "progress_of (Poll operation r # tr) = progress_of tr"
  "progress_of (Fetch url r' # tr) = progress_of tr"
  "progress_of (CreateObjectURL b u # tr) = progress_of tr"
  "progress_of (ConsoleError m # tr) = progress_of tr"
  by (simp_all add: progress_of_def)

lemma submits_simps [simp]:
  "submits [] = []"
  "submits (tr @ tr') = submits tr @ submits tr'"
  "submits (Progress m # tr) = submits tr"
  "submits (Sleep ms # tr) = submits tr"
  "submits (Submit request r # tr) = (request, r) # submits tr"
  "submits (Poll operation r # tr) = submits tr"
  "submits (Fetch url r' # tr) = submits tr"
  "submits (CreateObjectURL b u # tr) = submits tr"
  "submits (ConsoleError m # tr) = submits tr"
  by (simp_all add: submits_def)

lemma fetches_simps [simp]:
  "fetches [] = []"
  "fetches (tr @ tr') = fetches tr @ fetches tr'"
  "fetches (Progress m # tr) = fetches tr"
  "fetches (Sleep ms # tr) = fetches tr"
  "fetches (Submit request r # tr) = fetches tr"
  "fetches (Poll operation r # tr) = fetches tr"
  "fetches (Fetch url r' # tr) = url # fetches tr"
  "fetches (CreateObjectURL b u # tr) = fetches tr"
  "fetches (ConsoleError m # tr) = fetches tr"
  by (simp_all add: fetches_def)

lemma console_errors_simps [simp]:
  "console_errors [] = []"
  "console_errors (tr @ tr') = console_errors tr @ console_errors tr'"
  "console_errors (Progress m # tr) = console_errors tr"
  "console_errors (Sleep ms # tr) = console_errors tr"
  "console_errors (Submit request r # tr) = console_errors tr"
  "console_errors (Poll operation r # tr) = console_errors tr"
  "console_errors (Fetch url r' # tr) = console_errors tr"
  "console_errors (CreateObjectURL b u # tr) = console_errors tr"
  "console_errors (ConsoleError m # tr) = m # console_errors tr"
  by (simp_all add: console_errors_def)

lemma completions_simps [simp]:
  "completions [] = []"
  "completions (tr @ tr') = completions tr @ completions tr'"
  "completions (Progress m # tr) = completions tr"
  "completions (Sleep ms # tr) = completions tr"
  "completions (Submit request (Inl e) # tr) = completions tr"
  "completions (Submit request (Inr operation) # tr) =
     (if is_done operation then operation # completions tr else completions tr)"
  "completions (Poll polled (Inl e) # tr) = completions tr"
  "completions (Poll polled (Inr operation) # tr) =
     (if is_done operation then operation # completions tr else completions tr)"
  "completions (Fetch url r' # tr) = completions tr"
  "completions (CreateObjectURL b u # tr) = completions tr"
  "completions (ConsoleError m # tr) = completions tr"
  by (simp_all add: completions_def)

lemma poll_trace_quiet:
  "poll_trace operation tr r \<Longrightarrow>
     progress_of tr = [] \<and> submits tr = [] \<and> fetches tr = [] \<and> console_errors tr = []"
  by (induction operation tr r rule: poll_trace.induct) auto

lemma poll_trace_done: "poll_trace operation tr (Inr operation') \<Longrightarrow> is_done operation'"
  by (induction operation tr "Inr operation' :: string + operation" rule: poll_trace.induct) auto

lemma poll_trace_of_done:
  "poll_trace operation tr r \<Longrightarrow> is_done operation \<Longrightarrow> tr = [] \<and> r = Inr operation"
  by (induction operation tr r rule: poll_trace.induct) auto

lemma poll_trace_completions:
  "poll_trace operation tr r \<Longrightarrow>
     completions tr = (case r of Inl e \<Rightarrow> [] | Inr operation' \<Rightarrow> if is_done operation then [] else [operation'])"
proof (induction operation tr r rule: poll_trace.induct)
  case (2 operation ms polled operation' tr r)
  then show ?case
    by (cases "is_done operation'") (auto dest: poll_trace_of_done split: sum.splits)
qed (auto split: sum.splits)

lemma sleeps_simps [simp]:
  "sleeps [] = []"
  "sleeps (tr @ tr') = sleeps tr @ sleeps tr'"
  "sleeps (Progress m # tr) = sleeps tr"
  "sleeps (Sleep ms # tr) = ms # sleeps tr"
  "sleeps (Submit request r # tr) = sleeps tr"
  "sleeps (Poll operation r # tr) = sleeps tr"
  "sleeps (Fetch url r' # tr) = sleeps tr"
  "sleeps (CreateObjectURL b u # tr) = sleeps tr"
  "sleeps (ConsoleError m # tr) = sleeps tr"
  by (simp_all add: sleeps_def)

lemma polls_simps [simp]:
  "polls [] = []"
  "polls (tr @ tr') = polls tr @ polls tr'"
  "polls (Progress m # tr) = polls tr"
  "polls (Sleep ms # tr) = polls tr"
  "polls (Submit request r # tr) = polls tr"
  "polls (Poll operation r # tr) = operation # polls tr"
  "polls (Fetch url r' # tr) = polls tr"
  "polls (CreateObjectURL b u # tr) = polls tr"
  "polls (ConsoleError m # tr) = polls tr"
  by (simp_all add: polls_def)

lemma str_includes_sublist: "str_includes s t \<longleftrightarrow> sublist t s"
proof (induction s)
  case Nil
  show ?case by simp
next
  case (Cons c cs)
  show ?case
    by (simp add: Cons.IH sublist_Cons_right)
qed

subsection \<open>Every run that returns\<close>

lemma fetchAndCreateUrl_trace:
  assumes "fetchAndCreateUrl env link key st = (res, st')"
  obtains dl where "trace st' = trace st @ dl"
    and "download_trace (link @ ''&key='' @ key) dl res"
  using assms by (cases rule: fetchAndCreateUrl_cases) auto

lemma catch_message_fixed [simp]:
  "catch_message no_download_link = no_download_link"
  "catch_message no_initial_video = no_initial_video"
  "catch_message no_extension_link = no_extension_link"
  by (simp_all add: catch_message_def)

lemma run_cases:
  assumes "generateVideoFromImage env (Some key) p st = Some (res, st')" and "key \<noteq> []"
  obtains
    (initial_submit_throws) e where "res = Inl (catch_message e)"
      "trace st' = trace st @ [Progress warming_up, Submit (initial_request p) (Inl e),
                               ConsoleError e]"
  | (initial_poll_throws) op0 tr1 e where "poll_trace op0 tr1 (Inl e)"
      "res = Inl (catch_message e)"
      "trace st' = trace st @ [Progress warming_up, Submit (initial_request p) (Inr op0),
                               Progress generating] @ tr1 @ [ConsoleError e]"
  | (short_no_link) op0 tr1 op1 where "duration p = Short" "poll_trace op0 tr1 (Inr op1)"
      "\<not> truthy (video_uri op1)" "res = Inl no_download_link"
      "trace st' = trace st @ [Progress warming_up, Submit (initial_request p) (Inr op0),
                               Progress generating] @ tr1 @ [ConsoleError no_download_link]"
  | (short_returns) op0 tr1 op1 link dl where "duration p = Short"
      "poll_trace op0 tr1 (Inr op1)" "video_uri op1 = Some link" "link \<noteq> []"
      "download_trace (link @ ''&key='' @ key) dl res"
      "trace st' = trace st @ [Progress warming_up, Submit (initial_request p) (Inr op0),
                               Progress generating] @ tr1 @ [Progress downloading] @ dl"
  | (long_no_video) op0 tr1 op1 where "duration p = Long" "poll_trace op0 tr1 (Inr op1)"
      "first_video op1 = None" "res = Inl no_initial_video"
      "trace st' = trace st @ [Progress warming_up, Submit (initial_request p) (Inr op0),
                               Progress generating] @ tr1 @
                     [Progress finalizing, Sleep 3000, Progress extending,
                      ConsoleError no_initial_video]"
  | (extension_submit_throws) op0 tr1 op1 v e where "duration p = Long"
      "poll_trace op0 tr1 (Inr op1)" "first_video op1 = Some v" "res = Inl (catch_message e)"
      "trace st' = trace st @ [Progress warming_up, Submit (initial_request p) (Inr op0),
                               Progress generating] @ tr1 @
                     [Progress finalizing, Sleep 3000, Progress extending,
                      Submit (extension_request p v) (Inl e), ConsoleError e]"
  | (extension_poll_throws) op0 tr1 op1 v op2 tr2 e where "duration p = Long"
      "poll_trace op0 tr1 (Inr op1)" "first_video op1 = Some v" "poll_trace op2 tr2 (Inl e)"
      "res = Inl (catch_message e)"
      "trace st' = trace st @ [Progress warming_up, Submit (initial_request p) (Inr op0),
                               Progress generating] @ tr1 @
                     [Progress finalizing, Sleep 3000, Progress extending,
                      Submit (extension_request p v) (Inr op2)] @ tr2 @ [ConsoleError e]"
  | (extension_no_link) op0 tr1 op1 v op2 tr2 op3 where "duration p = Long"
      "poll_trace op0 tr1 (Inr op1)" "first_video op1 = Some v" "poll_trace op2 tr2 (Inr op3)"
      "\<not> truthy (video_uri op3)" "res = Inl no_extension_link"
      "trace st' = trace st @ [Progress warming_up, Submit (initial_request p) (Inr op0),
                               Progress generating] @ tr1 @
                     [Progress finalizing, Sleep 3000, Progress extending,
                      Submit (extension_request p v) (Inr op2)] @ tr2 @
                     [ConsoleError no_extension_link]"
  | (long_returns) op0 tr1 op1 v op2 tr2 op3 link dl where "duration p = Long"
      "poll_trace op0 tr1 (Inr op1)" "first_video op1 = Some v" "poll_trace op2 tr2 (Inr op3)"
      "video_uri op3 = Some link" "link \<noteq> []"
      "download_trace (link @ ''&key='' @ key) dl res"
      "trace st' = trace st @ [Progress warming_up, Submit (initial_request p) (Inr op0),
                               Progress generating] @ tr1 @
                     [Progress finalizing, Sleep 3000, Progress extending,
                      Submit (extension_request p v) (Inr op2)] @ tr2 @
                     [Progress downloading_extended] @ dl"
  using assms
proof (cases rule: generateVideoFromImage_cases)
  case (thrown message st1)
  from thrown(1) show ?thesis
  proof (cases rule: try_block_cases)
    case (initial_submit_throws e)
    with thrown show ?thesis by (intro that(1)[of e]) auto
  next
    case (initial_poll_throws op0 tr1 e)
    with thrown show ?thesis by (intro that(2)[of op0 tr1 e]) auto
  next
    case (short_no_link op0 tr1 op1)
    with thrown show ?thesis by (intro that(3)[of op0 tr1 op1]) auto
  next
    case (short_returns op0 tr1 op1 link)
    then show ?thesis by simp
  next
    case (long_extension op0 tr1 op1 st3)
    from long_extension(4) show ?thesis
    proof (cases rule: extension_stage_cases)
      case no_video
      with thrown long_extension show ?thesis by (intro that(5)[of op0 tr1 op1]) auto
    next
      case (submit_throws v e)
      with thrown long_extension show ?thesis by (intro that(6)[of op0 tr1 op1 v e]) auto
    next
      case (poll_throws v op2 tr2 e)
      with thrown long_extension show ?thesis
        by (intro that(7)[of op0 tr1 op1 v op2 tr2 e]) auto
    next
      case (no_link v op2 tr2 op3)
      with thrown long_extension show ?thesis
        by (intro that(8)[of op0 tr1 op1 v op2 tr2 op3]) auto
    next
      case (returns v op2 tr2 op3 link)
      then show ?thesis by simp
    qed
  qed
next
  case (returned link st1)
  from fetchAndCreateUrl_trace[OF returned(2)] obtain dl where
    dl: "trace st' = trace st1 @ dl" "download_trace (link @ ''&key='' @ key) dl res" by blast
  from returned(1) show ?thesis
  proof (cases rule: try_block_cases)
    case (short_returns op0 tr1 op1 link')
    with dl show ?thesis by (intro that(4)[of op0 tr1 op1 link dl]) auto
  next
    case (long_extension op0 tr1 op1 st3)
    from long_extension(4) show ?thesis
    proof (cases rule: extension_stage_cases)
      case (returns v op2 tr2 op3 link')
      with dl long_extension show ?thesis
        by (intro that(9)[of op0 tr1 op1 v op2 tr2 op3 link dl]) auto
    qed simp_all
  qed simp_all
qed

subsection \<open>Runs on the scripted service\<close>

lemma scripted_poll_once:
  "n \<le> Suc (world st) \<Longrightarrow>
   pollUntilDone (scripted_env n v1 v2 d) k (pending_operation name) st =
     Some (Inr (finished_operation (Some name)
                  (if name = ''veo-3.1-fast-generate-preview'' then v1 else v2)),
           \<lparr>world = Suc (world st),
            trace = trace st @ [Sleep 20000, Poll (pending_operation name)
                                  (Inr (finished_operation (Some name)
                                     (if name = ''veo-3.1-fast-generate-preview'' then v1 else v2)))]\<rparr>)"
  by (subst pollUntilDone.simps, subst pollUntilDone.simps)
    (simp add: is_done_def pending_operation_def finished_operation_def
      getVideosOperation_def scripted_env_def sleep_def emit_def)

lemma scripted_submit:
  "generateVideos (scripted_env n v1 v2 d) k request st =
     (Inr (pending_operation (req_model request)),
      \<lparr>world = 0, trace = trace st @ [Submit request (Inr (pending_operation (req_model request)))]\<rparr>)"
  by (simp add: generateVideos_def scripted_env_def)

lemma scripted_fetch_ok:
  "fetchAndCreateUrl (scripted_env n v1 v2 ok_download) link key st =
     (Inr ''blob:bytes'',
      \<lparr>world = world st,
       trace = trace st @ [Fetch (link @ ''&key='' @ key) ok_download,
                           CreateObjectURL ''bytes'' ''blob:bytes'']\<rparr>)"
  by (simp add: fetchAndCreateUrl_def scripted_env_def ok_download_def)

lemma scripted_fetch_refused:
  "fetchAndCreateUrl (scripted_env n v1 v2 refused_download) link key st =
     (Inl ''Failed to download video: RESOURCE_EXHAUSTED'',
      \<lparr>world = world st, trace = trace st @ [Fetch (link @ ''&key='' @ key) refused_download]\<rparr>)"
  by (simp add: fetchAndCreateUrl_def scripted_env_def refused_download_def)

lemma scripted_facts [simp]:
  "req_model (initial_request p) = ''veo-3.1-fast-generate-preview''"
  "req_model (extension_request p v) = ''veo-3.1-generate-preview''"
  "video_uri (finished_operation name (Some (video_at link))) = Some link"
  "video_uri (finished_operation name None) = None"
  "first_video (finished_operation name v') = v'"
  "duration (request_of d) = d"
  by (simp_all add: initial_request_def extension_request_def video_uri_def first_video_def
      finished_operation_def video_at_def request_of_def)

lemmas scripted_run =
  generateVideoFromImage_def try_block_def extension_stage_def scripted_submit
  scripted_poll_once scripted_fetch_ok scripted_fetch_refused start_def onProgress_def
  sleep_def emit_def catch_block_def

lemma run_short_ok:
  "generateVideoFromImage (scripted_env 1 (Some (video_at ''https://v/1?alt=media'')) None ok_download)
     (Some ''KEY'') (request_of Short) start =
   Some (Inr ''blob:bytes'',
     \<lparr>world = 1,
      trace = [Progress warming_up,
               Submit (initial_request (request_of Short)) (Inr fast_pending),
               Progress generating,
               Sleep 20000,
               Poll fast_pending (Inr (fast_finished (Some (video_at ''https://v/1?alt=media'')))),
               Progress downloading,
               Fetch ''https://v/1?alt=media&key=KEY'' ok_download,
               CreateObjectURL ''bytes'' ''blob:bytes'']\<rparr>)"
  by (simp add: scripted_run)

lemma run_short_refused:
  "generateVideoFromImage (scripted_env 1 (Some (video_at ''https://v/1?alt=media'')) None refused_download)
     (Some ''KEY'') (request_of Short) start =
   Some (Inl ''Failed to download video: RESOURCE_EXHAUSTED'',
     \<lparr>world = 1,
      trace = [Progress warming_up,
               Submit (initial_request (request_of Short)) (Inr fast_pending),
               Progress generating,
               Sleep 20000,
               Poll fast_pending (Inr (fast_finished (Some (video_at ''https://v/1?alt=media'')))),
               Progress downloading,
               Fetch ''https://v/1?alt=media&key=KEY'' refused_download]\<rparr>)"
  by (simp add: scripted_run)


lemma run_long_ok:
  "generateVideoFromImage
     (scripted_env 1 (Some (video_at ''https://v/1?alt=media''))
        (Some (video_at ''https://v/2?alt=media'')) ok_download)
     (Some ''KEY'') (request_of Long) start =
   Some (Inr ''blob:bytes'',
     \<lparr>world = 1,
      trace = [Progress warming_up,
               Submit (initial_request (request_of Long)) (Inr fast_pending),
               Progress generating,
               Sleep 20000,
               Poll fast_pending (Inr (fast_finished (Some (video_at ''https://v/1?alt=media'')))),
               Progress finalizing,
               Sleep 3000,
               Progress extending,
               Submit (extension_request (request_of Long) (video_at ''https://v/1?alt=media''))
                 (Inr ext_pending),
               Sleep 20000,
               Poll ext_pending (Inr (ext_finished (Some (video_at ''https://v/2?alt=media'')))),
               Progress downloading_extended,
               Fetch ''https://v/2?alt=media&key=KEY'' ok_download,
               CreateObjectURL ''bytes'' ''blob:bytes'']\<rparr>)"
  by (simp add: scripted_run)

lemma run_long_no_video:
  "generateVideoFromImage (scripted_env 1 None None ok_download)
     (Some ''KEY'') (request_of Long) start =
   Some (Inl no_initial_video,
     \<lparr>world = 1,
      trace = [Progress warming_up,
               Submit (initial_request (request_of Long)) (Inr fast_pending),
               Progress generating,
               Sleep 20000,
               Poll fast_pending (Inr (fast_finished None)),
               Progress finalizing,
               Sleep 3000,
               Progress extending,
               ConsoleError no_initial_video]\<rparr>)"
  by (simp add: scripted_run)


lemma scripted_polls:
  assumes "w < n"
  shows "\<exists>st'. pollUntilDone (scripted_env n v1 v2 d) k (pending_operation name)
                 \<lparr>world = w, trace = tr\<rparr> =
               Some (Inr (finished_operation (Some name)
                            (if name = ''veo-3.1-fast-generate-preview'' then v1 else v2)), st') \<and>
             sleeps (trace st') = sleeps tr @ replicate (n - w) 20000 \<and>
             polls (trace st') = polls tr @ replicate (n - w) (pending_operation name)"
  using assms
proof (induction "n - w" arbitrary: w tr)
  case 0
  then show ?case by simp
next
  case (Suc m)
  show ?case
  proof (cases "n \<le> Suc w")
    case True
    with Suc.prems have "n - w = 1" by simp
    with True show ?thesis
      by (simp add: scripted_poll_once)
  next
    case False
    then have lt: "Suc w < n" by simp
    from Suc.hyps(2) have m: "m = n - Suc w" by simp
    let ?tr = "tr @ [Sleep 20000, Poll (pending_operation name) (Inr (pending_operation name))]"
    from Suc.hyps(1)[OF m lt, of ?tr]
    obtain st' where
      run: "pollUntilDone (scripted_env n v1 v2 d) k (pending_operation name)
              \<lparr>world = Suc w, trace = ?tr\<rparr> =
            Some (Inr (finished_operation (Some name)
                            (if name = ''veo-3.1-fast-generate-preview'' then v1 else v2)), st')"
      and sl: "sleeps (trace st') = sleeps ?tr @ replicate (n - Suc w) 20000"
      and po: "polls (trace st') = polls ?tr @ replicate (n - Suc w) (pending_operation name)"
      by auto
    have step: "pollUntilDone (scripted_env n v1 v2 d) k (pending_operation name) \<lparr>world = w, trace = tr\<rparr> =
                pollUntilDone (scripted_env n v1 v2 d) k (pending_operation name)
              \<lparr>world = Suc w, trace = ?tr\<rparr>"
      using False
      by (subst pollUntilDone.simps)
        (simp add: is_done_def pending_operation_def getVideosOperation_def scripted_env_def sleep_def emit_def)
    have rep: "replicate (n - w) x = x # replicate (n - Suc w) x" for x :: 'b
      using lt by (metis Suc_diff_Suc Suc_lessD replicate_Suc)
    from run sl po show ?thesis
      unfolding step by (auto simp: rep)
  qed
qed

lemma download_trace_quiet:
  "download_trace url dl res \<Longrightarrow>
     progress_of dl = [] \<and> submits dl = [] \<and> console_errors dl = [] \<and> completions dl = [] \<and>
     sleeps dl = [] \<and> polls dl = [] \<and> fetches dl = [url]"
  by (induction url dl res rule: download_trace.induct) auto


lemma initial_stage_completions:
  assumes "poll_trace op0 tr1 r"
  shows "completions (Progress a # Submit q (Inr op0) # Progress b # tr1 @ rest) =
           (case r of Inl e \<Rightarrow> completions rest | Inr op1 \<Rightarrow> op1 # completions rest)"
proof (cases "is_done op0")
  case True
  with poll_trace_of_done[OF assms] show ?thesis by simp
next
  case False
  with poll_trace_completions[OF assms] show ?thesis by (simp split: sum.splits)
qed


text \<open>
  Which errors enter the \<^verbatim>\<open>catch\<close> block: an error thrown inside the \<^verbatim>\<open>try\<close> block
  enters it, once, and the caller receives its rewritten message; once a download has
  started, nothing enters it and the caller receives what the download settled to.
\<close>

lemma catch_block_entered:
  assumes "generateVideoFromImage env (Some key) p st = Some (res, st')" and "key \<noteq> []"
  obtains
    (caught) tr message where "trace st' = trace st @ tr" "console_errors tr = [message]"
      "res = Inl (catch_message message)" "fetches tr = []"
  | (downloaded) tr link dl where "trace st' = trace st @ tr @ dl" "console_errors (tr @ dl) = []"
      "fetches tr = []" "download_trace (link @ ''&key='' @ key) dl res"
  using assms
proof (cases rule: run_cases)
  case (initial_submit_throws e)
  then show ?thesis
    by (intro caught[of "[Progress warming_up, Submit (initial_request p) (Inl e),
                          ConsoleError e]" e]) simp_all
next
  case (initial_poll_throws op0 tr1 e)
  from poll_trace_quiet[OF initial_poll_throws(1)] initial_poll_throws(2,3) show ?thesis
    by (intro caught[of "[Progress warming_up, Submit (initial_request p) (Inr op0),
                          Progress generating] @ tr1 @ [ConsoleError e]" e]) simp_all
next
  case (short_no_link op0 tr1 op1)
  from poll_trace_quiet[OF short_no_link(2)] short_no_link(4,5) show ?thesis
    by (intro caught[of "[Progress warming_up, Submit (initial_request p) (Inr op0),
                          Progress generating] @ tr1 @ [ConsoleError no_download_link]"
          no_download_link]) simp_all
next
  case (short_returns op0 tr1 op1 link dl)
  from poll_trace_quiet[OF short_returns(2)] download_trace_quiet[OF short_returns(5)]
    short_returns(5,6)
  show ?thesis
    by (intro downloaded[of "[Progress warming_up, Submit (initial_request p) (Inr op0),
                              Progress generating] @ tr1 @ [Progress downloading]" dl link])
      simp_all
next
  case (long_no_video op0 tr1 op1)
  from poll_trace_quiet[OF long_no_video(2)] long_no_video(4,5) show ?thesis
    by (intro caught[of "[Progress warming_up, Submit (initial_request p) (Inr op0),
                          Progress generating] @ tr1 @
                         [Progress finalizing, Sleep 3000, Progress extending,
                          ConsoleError no_initial_video]" no_initial_video]) simp_all
next
  case (extension_submit_throws op0 tr1 op1 v e)
  from poll_trace_quiet[OF extension_submit_throws(2)] extension_submit_throws(4,5)
  show ?thesis
    by (intro caught[of "[Progress warming_up, Submit (initial_request p) (Inr op0),
                          Progress generating] @ tr1 @
                         [Progress finalizing, Sleep 3000, Progress extending,
                          Submit (extension_request p v) (Inl e), ConsoleError e]" e])
      simp_all
next
  case (extension_poll_throws op0 tr1 op1 v op2 tr2 e)
  from poll_trace_quiet[OF extension_poll_throws(2)] poll_trace_quiet[OF extension_poll_throws(4)]
    extension_poll_throws(5,6)
  show ?thesis
    by (intro caught[of "[Progress warming_up, Submit (initial_request p) (Inr op0),
                          Progress generating] @ tr1 @
                         [Progress finalizing, Sleep 3000, Progress extending,
                          Submit (extension_request p v) (Inr op2)] @ tr2 @ [ConsoleError e]" e])
      simp_all
next
  case (extension_no_link op0 tr1 op1 v op2 tr2 op3)
  from poll_trace_quiet[OF extension_no_link(2)] poll_trace_quiet[OF extension_no_link(4)]
    extension_no_link(6,7)
  show ?thesis
    by (intro caught[of "[Progress warming_up, Submit (initial_request p) (Inr op0),
                          Progress generating] @ tr1 @
                         [Progress finalizing, Sleep 3000, Progress extending,
                          Submit (extension_request p v) (Inr op2)] @ tr2 @
                         [ConsoleError no_extension_link]" no_extension_link])
      simp_all
next
  case (long_returns op0 tr1 op1 v op2 tr2 op3 link dl)
  from poll_trace_quiet[OF long_returns(2)] poll_trace_quiet[OF long_returns(4)]
    download_trace_quiet[OF long_returns(7)] long_returns(7,8)
  show ?thesis
    by (intro downloaded[of "[Progress warming_up, Submit (initial_request p) (Inr op0),
                              Progress generating] @ tr1 @
                             [Progress finalizing, Sleep 3000, Progress extending,
                              Submit (extension_request p v) (Inr op2)] @ tr2 @
                             [Progress downloading_extended]" dl link])
      simp_all
qed

subsection \<open>The shape of short and long runs that return\<close>







section \<open>The claims\<close>

text \<open>
  Claim C3. When \<^verbatim>\<open>process.env.API_KEY\<close> is absent (undefined, or the empty string, which
  \<^verbatim>\<open>!apiKey\<close> treats alike), the call fails with the missing-key error and the state is
  the one it started in: nothing was submitted, polled, downloaded, reported or logged.
\<close>

theorem missing_credential:
  "generateVideoFromImage env None p st = Some (Inl no_api_key, st) \<and>
   generateVideoFromImage env (Some []) p st = Some (Inl no_api_key, st) \<and>
   trace (snd (the (generateVideoFromImage env None p st))) = trace st \<and>
   trace (snd (the (generateVideoFromImage env (Some []) p st))) = trace st"
  by (simp add: generateVideoFromImage_def)

theorem missing_credential_witness:
  "generateVideoFromImage (scripted_env 1 None None ok_download) None (request_of Long) start =
     Some (Inl no_api_key, start) \<and> trace start = []"
  using missing_credential[of "scripted_env 1 None None ok_download" "request_of Long" start]
  by (simp add: start_def)

text \<open>
  Claim C4. The polling loop. Given a snapshot that is done, it returns that snapshot and
  leaves the state as it was (no wait, no poll). Given a snapshot that is not done, it
  waits 20000 ms, polls that snapshot once, and goes on with the answer in its place (or
  leaves with the error of the poll). Whenever it returns, the events it added form a
  \<open>poll_trace\<close>, and an operation it returns is done. Nothing bounds the number of rounds:
  on the scripted service that completes at the \<open>n\<close>-th poll the loop returns after
  exactly \<open>n\<close> waits of 20000 ms and \<open>n\<close> polls, for every \<open>n\<close>.
\<close>

theorem polling_loop:
  "(is_done operation \<longrightarrow> pollUntilDone env k operation st = Some (Inr operation, st)) \<and>
   (\<not> is_done operation \<longrightarrow>
      pollUntilDone env k operation st =
        (case operations_getVideosOperation env k operation (world st) of
           (Inl e, w) \<Rightarrow>
             Some (Inl e, \<lparr>world = w, trace = trace st @ [Sleep 20000, Poll operation (Inl e)]\<rparr>)
         | (Inr operation', w) \<Rightarrow>
             pollUntilDone env k operation'
               \<lparr>world = w, trace = trace st @ [Sleep 20000, Poll operation (Inr operation')]\<rparr>)) \<and>
   (\<forall>r st'. pollUntilDone env k operation st = Some (r, st') \<longrightarrow>
      (\<exists>tr. trace st' = trace st @ tr \<and> poll_trace operation tr r) \<and>
      (\<forall>operation'. r = Inr operation' \<longrightarrow> is_done operation')) \<and>
   (\<forall>n>0. \<exists>st'.
      pollUntilDone (scripted_env n v1 v2 d) k (pending_operation name) start =
        Some (Inr (finished_operation (Some name)
                     (if name = ''veo-3.1-fast-generate-preview'' then v1 else v2)), st') \<and>
      sleeps (trace st') = replicate n 20000 \<and>
      polls (trace st') = replicate n (pending_operation name))"
proof (intro conjI impI allI)
  assume "is_done operation"
  then show "pollUntilDone env k operation st = Some (Inr operation, st)"
    by (subst pollUntilDone.simps) simp
next
  assume "\<not> is_done operation"
  then show "pollUntilDone env k operation st =
        (case operations_getVideosOperation env k operation (world st) of
           (Inl e, w) \<Rightarrow>
             Some (Inl e, \<lparr>world = w, trace = trace st @ [Sleep 20000, Poll operation (Inl e)]\<rparr>)
         | (Inr operation', w) \<Rightarrow>
             pollUntilDone env k operation'
               \<lparr>world = w, trace = trace st @ [Sleep 20000, Poll operation (Inr operation')]\<rparr>)"
    by (subst pollUntilDone.simps)
      (simp add: getVideosOperation_def sleep_def emit_def split: prod.splits sum.splits)
next
  fix r st'
  assume run: "pollUntilDone env k operation st = Some (r, st')"
  from pollUntilDone_trace[OF run] obtain tr where
    tr: "trace st' = trace st @ tr" "poll_trace operation tr r" by blast
  then show "\<exists>tr. trace st' = trace st @ tr \<and> poll_trace operation tr r" by blast
  fix operation' assume "r = Inr operation'"
  with tr show "is_done operation'" by (auto dest: poll_trace_done)
next
  fix n :: nat assume "0 < n"
  from scripted_polls[OF this, of v1 v2 d k name "[]"]
  show "\<exists>st'.
      pollUntilDone (scripted_env n v1 v2 d) k (pending_operation name) start =
        Some (Inr (finished_operation (Some name)
                     (if name = ''veo-3.1-fast-generate-preview'' then v1 else v2)), st') \<and>
      sleeps (trace st') = replicate n 20000 \<and>
      polls (trace st') = replicate n (pending_operation name)"
    by (simp add: start_def)
qed

theorem polling_loop_witness:
  "is_done (fast_finished None) \<and>
   pollUntilDone (scripted_env 3 None None ok_download) ''KEY'' (fast_finished None) start =
     Some (Inr (fast_finished None), start) \<and>
   \<not> is_done fast_pending \<and>
   (\<exists>st'. pollUntilDone (scripted_env 3 None None ok_download) ''KEY'' fast_pending start =
            Some (Inr (fast_finished None), st') \<and>
          poll_trace fast_pending (trace st') (Inr (fast_finished None)) \<and>
          sleeps (trace st') = [20000, 20000, 20000] \<and>
          polls (trace st') = [fast_pending, fast_pending, fast_pending])"
proof -
  let ?env = "scripted_env 3 None None ok_download"
  have d: "is_done (fast_finished None)" and nd: "\<not> is_done fast_pending"
    by (simp_all add: is_done_def finished_operation_def pending_operation_def)
  note done_case = polling_loop[of "fast_finished None" ?env "''KEY''" start, THEN conjunct1]
  note loop_case = polling_loop[of fast_pending ?env "''KEY''" start None None ok_download
      "''veo-3.1-fast-generate-preview''", THEN conjunct2, THEN conjunct2]
  from done_case d
  have a: "pollUntilDone ?env ''KEY'' (fast_finished None) start =
             Some (Inr (fast_finished None), start)"
    by (rule mp)
  from loop_case[THEN conjunct2] have "\<exists>st'.
      pollUntilDone ?env ''KEY'' fast_pending start = Some (Inr (fast_finished None), st') \<and>
      sleeps (trace st') = replicate 3 20000 \<and>
      polls (trace st') = replicate 3 fast_pending"
    by (simp del: replicate.simps)
  then obtain st' where
    run: "pollUntilDone ?env ''KEY'' fast_pending start = Some (Inr (fast_finished None), st')"
    and sl: "sleeps (trace st') = replicate 3 20000"
    and po: "polls (trace st') = replicate 3 fast_pending"
    by blast
  from loop_case[THEN conjunct1, rule_format, OF run]
  have "poll_trace fast_pending (trace st') (Inr (fast_finished None))"
    by (simp add: start_def)
  moreover from sl have "sleeps (trace st') = [20000, 20000, 20000]"
    by (simp add: numeral_3_eq_3)
  moreover from po have "polls (trace st') = [fast_pending, fast_pending, fast_pending]"
    by (simp add: numeral_3_eq_3)
  ultimately show ?thesis
    using d nd a run by blast
qed

text \<open>
  Claim C5. The message the \<^verbatim>\<open>catch\<close> block rethrows, by the rules in their order:
  the rate-limit text when the caught message contains \<^verbatim>\<open>RESOURCE_EXHAUSTED\<close> or
  \<^verbatim>\<open>429\<close>, whatever else it contains; otherwise the invalid-key text when it contains
  \<^verbatim>\<open>Requested entity was not found\<close>; otherwise the caught message itself, or the
  fallback text when it is empty. The match is on the exact characters: the lower-case
  marker is not recognised.
\<close>

theorem catch_message_rules:
  "(sublist ''RESOURCE_EXHAUSTED'' m \<or> sublist ''429'' m
      \<longrightarrow> catch_message m = rate_limit_exceeded) \<and>
   (\<not> sublist ''RESOURCE_EXHAUSTED'' m \<and> \<not> sublist ''429'' m \<and>
    sublist ''Requested entity was not found'' m
      \<longrightarrow> catch_message m = api_key_invalid) \<and>
   (\<not> sublist ''RESOURCE_EXHAUSTED'' m \<and> \<not> sublist ''429'' m \<and>
    \<not> sublist ''Requested entity was not found'' m
      \<longrightarrow> catch_message m = (if m = [] then unknown_error else m)) \<and>
   catch_message ''resource_exhausted'' = ''resource_exhausted''"
proof -
  have "catch_message ''resource_exhausted'' = ''resource_exhausted''"
    by (simp add: catch_message_def)
  then show ?thesis
    by (cases "m = []") (simp_all add: catch_message_def str_includes_sublist del: str_includes.simps)
qed

theorem catch_message_rules_witness:
  "sublist ''429'' ''429: Requested entity was not found'' \<and>
   catch_message ''429: Requested entity was not found'' = rate_limit_exceeded \<and>
   \<not> sublist ''RESOURCE_EXHAUSTED'' ''Requested entity was not found.'' \<and>
   \<not> sublist ''429'' ''Requested entity was not found.'' \<and>
   sublist ''Requested entity was not found'' ''Requested entity was not found.'' \<and>
   catch_message ''Requested entity was not found.'' = api_key_invalid \<and>
   \<not> sublist ''RESOURCE_EXHAUSTED'' ''quota'' \<and> \<not> sublist ''429'' ''quota'' \<and>
   \<not> sublist ''Requested entity was not found'' ''quota'' \<and>
   catch_message ''quota'' = ''quota'' \<and> catch_message [] = unknown_error"
proof -
  have h: "sublist ''429'' ''429: Requested entity was not found''"
    "\<not> sublist ''RESOURCE_EXHAUSTED'' ''Requested entity was not found.''"
    "\<not> sublist ''429'' ''Requested entity was not found.''"
    "sublist ''Requested entity was not found'' ''Requested entity was not found.''"
    "\<not> sublist ''RESOURCE_EXHAUSTED'' ''quota''" "\<not> sublist ''429'' ''quota''"
    "\<not> sublist ''Requested entity was not found'' ''quota''"
    "\<not> sublist ''RESOURCE_EXHAUSTED'' []" "\<not> sublist ''429'' []"
    "\<not> sublist ''Requested entity was not found'' []"
    by (simp_all add: str_includes_sublist[symmetric])
  from h catch_message_rules[of "''429: Requested entity was not found''"]
    catch_message_rules[of "''Requested entity was not found.''"]
    catch_message_rules[of "''quota''"] catch_message_rules[of "[]"]
  show ?thesis by simp
qed






text \<open>
  Claim C10. With a key present, a run that returns has submitted the initial request
  alone, or (only for a long video) the initial request and then one extension request;
  a long run that returns a URL has submitted both. The initial request names the model
  \<^verbatim>\<open>veo-3.1-fast-generate-preview\<close>, the extension request the different model
  \<^verbatim>\<open>veo-3.1-generate-preview\<close>, and both carry the same configuration: one video,
  \<^verbatim>\<open>720p\<close>, the caller's aspect ratio.
\<close>

theorem stage_models:
  assumes "key \<noteq> []"
    and "generateVideoFromImage env (Some key) p st = Some (res, st')"
  shows "\<exists>tr. trace st' = trace st @ tr \<and>
           ((\<exists>r. submits tr = [(initial_request p, r)]) \<or>
            (duration p = Long \<and>
             (\<exists>r v r'. submits tr = [(initial_request p, r), (extension_request p v, r')]))) \<and>
           (\<forall>url. duration p = Long \<and> res = Inr url \<longrightarrow> length (submits tr) = 2) \<and>
           req_model (initial_request p) = ''veo-3.1-fast-generate-preview'' \<and>
           (\<forall>v. req_model (extension_request p v) = ''veo-3.1-generate-preview'' \<and>
                req_model (extension_request p v) \<noteq> req_model (initial_request p) \<and>
                req_config (extension_request p v) =
                  \<lparr>numberOfVideos = 1, resolution = ''720p'',
                   cfg_aspectRatio = aspectRatio p\<rparr>) \<and>
           req_config (initial_request p) =
             \<lparr>numberOfVideos = 1, resolution = ''720p'', cfg_aspectRatio = aspectRatio p\<rparr>"
proof -
  have fields: "req_model (initial_request p) = ''veo-3.1-fast-generate-preview''"
    "\<forall>v. req_model (extension_request p v) = ''veo-3.1-generate-preview'' \<and>
                req_model (extension_request p v) \<noteq> req_model (initial_request p) \<and>
                req_config (extension_request p v) =
                  \<lparr>numberOfVideos = 1, resolution = ''720p'',
                   cfg_aspectRatio = aspectRatio p\<rparr>"
    "req_config (initial_request p) =
             \<lparr>numberOfVideos = 1, resolution = ''720p'', cfg_aspectRatio = aspectRatio p\<rparr>"
    by (simp_all add: initial_request_def extension_request_def)
  from assms(2,1) have "\<exists>tr. trace st' = trace st @ tr \<and>
           ((\<exists>r. submits tr = [(initial_request p, r)]) \<or>
            (duration p = Long \<and>
             (\<exists>r v r'. submits tr = [(initial_request p, r), (extension_request p v, r')]))) \<and>
           (\<forall>url. duration p = Long \<and> res = Inr url \<longrightarrow> length (submits tr) = 2)"
  proof (cases rule: run_cases)
    case (initial_submit_throws e)
    then show ?thesis by auto
  next
    case (initial_poll_throws op0 tr1 e)
    then show ?thesis by (auto dest: poll_trace_quiet)
  next
    case (short_no_link op0 tr1 op1)
    then show ?thesis by (auto dest: poll_trace_quiet)
  next
    case (short_returns op0 tr1 op1 link dl)
    from poll_trace_quiet[OF short_returns(2)] download_trace_quiet[OF short_returns(5)]
      short_returns(1,6)
    show ?thesis by auto
  next
    case (long_no_video op0 tr1 op1)
    then show ?thesis by (auto dest: poll_trace_quiet)
  next
    case (extension_submit_throws op0 tr1 op1 v e)
    from poll_trace_quiet[OF extension_submit_throws(2)] extension_submit_throws(1,4,5)
    show ?thesis by auto
  next
    case (extension_poll_throws op0 tr1 op1 v op2 tr2 e)
    from poll_trace_quiet[OF extension_poll_throws(2)] poll_trace_quiet[OF extension_poll_throws(4)]
      extension_poll_throws(1,5,6)
    show ?thesis by auto
  next
    case (extension_no_link op0 tr1 op1 v op2 tr2 op3)
    from poll_trace_quiet[OF extension_no_link(2)] poll_trace_quiet[OF extension_no_link(4)]
      extension_no_link(1,6,7)
    show ?thesis by auto
  next
    case (long_returns op0 tr1 op1 v op2 tr2 op3 link dl)
    from poll_trace_quiet[OF long_returns(2)] poll_trace_quiet[OF long_returns(4)]
      download_trace_quiet[OF long_returns(7)] long_returns(1,8)
    show ?thesis by auto
  qed
  with fields show ?thesis by blast
qed

theorem stage_models_witness:
  "''KEY'' \<noteq> [] \<and>
   (\<exists>st'. generateVideoFromImage
            (scripted_env 1 (Some (video_at ''https://v/1?alt=media''))
               (Some (video_at ''https://v/2?alt=media'')) ok_download)
            (Some ''KEY'') (request_of Long) start = Some (Inr ''blob:bytes'', st') \<and>
          length (submits (trace st')) = 2) \<and>
   req_model (initial_request (request_of Long)) = ''veo-3.1-fast-generate-preview''"
proof -
  have k: "''KEY'' \<noteq> []" by simp
  obtain st' where run: "generateVideoFromImage
            (scripted_env 1 (Some (video_at ''https://v/1?alt=media''))
               (Some (video_at ''https://v/2?alt=media'')) ok_download)
            (Some ''KEY'') (request_of Long) start = Some (Inr ''blob:bytes'', st')"
    using run_long_ok by (rule that)
  from stage_models[OF k run]
  have "length (submits (trace st')) = 2 \<and>
        req_model (initial_request (request_of Long)) = ''veo-3.1-fast-generate-preview''"
  proof (elim exE conjE)
    fix tr
    assume tr: "trace st' = trace start @ tr"
      and two: "\<forall>url. duration (request_of Long) = Long \<and>
                   (Inr ''blob:bytes'' :: string + string) = Inr url \<longrightarrow> length (submits tr) = 2"
      and m: "req_model (initial_request (request_of Long)) = ''veo-3.1-fast-generate-preview''"
    from two have "length (submits tr) = 2" by simp
    with tr m show ?thesis by (simp add: start_def)
  qed
  with k run show ?thesis by blast
qed

text \<open>
  Claim C8. In every run that returns, the messages given to \<^verbatim>\<open>onProgress\<close> are an
  initial part of the fixed sequence of the duration: warming up, generating, downloading
  for a short video; warming up, generating, finalizing, extending, downloading for a long
  one. The messages are pairwise different, so none is repeated and none is out of order.
\<close>

theorem progress_order:
  assumes "generateVideoFromImage env apiKey p st = Some (res, st')"
  shows "\<exists>tr. trace st' = trace st @ tr \<and>
           prefix (progress_of tr)
             (if duration p = Short then [warming_up, generating, downloading]
              else [warming_up, generating, finalizing, extending, downloading_extended]) \<and>
           distinct [warming_up, generating, finalizing, extending, downloading,
                     downloading_extended]"
proof -
  have dist: "distinct [warming_up, generating, finalizing, extending, downloading,
                     downloading_extended]"
    by simp
  have "\<exists>tr. trace st' = trace st @ tr \<and>
           prefix (progress_of tr)
             (if duration p = Short then [warming_up, generating, downloading]
              else [warming_up, generating, finalizing, extending, downloading_extended])"
  proof (cases "truthy apiKey")
    case False
    with assms have "st' = st"
      by (cases apiKey) (auto simp: generateVideoFromImage_def split: if_splits)
    then show ?thesis by simp
  next
    case True
    then obtain key where key: "apiKey = Some key" "key \<noteq> []"
      by (cases apiKey) auto
    from assms[unfolded key(1)] key(2) show ?thesis
    proof (cases rule: run_cases)
      case (initial_submit_throws e)
      then show ?thesis by auto
    next
      case (initial_poll_throws op0 tr1 e)
      from poll_trace_quiet[OF initial_poll_throws(1)] initial_poll_throws(3)
      show ?thesis by auto
    next
      case (short_no_link op0 tr1 op1)
      from poll_trace_quiet[OF short_no_link(2)] short_no_link(1,5)
      show ?thesis by auto
    next
      case (short_returns op0 tr1 op1 link dl)
      from poll_trace_quiet[OF short_returns(2)] download_trace_quiet[OF short_returns(5)]
        short_returns(1,6)
      show ?thesis by auto
    next
      case (long_no_video op0 tr1 op1)
      from poll_trace_quiet[OF long_no_video(2)] long_no_video(1,5)
      show ?thesis by auto
    next
      case (extension_submit_throws op0 tr1 op1 v e)
      from poll_trace_quiet[OF extension_submit_throws(2)] extension_submit_throws(1,5)
      show ?thesis by auto
    next
      case (extension_poll_throws op0 tr1 op1 v op2 tr2 e)
      from poll_trace_quiet[OF extension_poll_throws(2)] poll_trace_quiet[OF extension_poll_throws(4)]
        extension_poll_throws(1,6)
      show ?thesis by auto
    next
      case (extension_no_link op0 tr1 op1 v op2 tr2 op3)
      from poll_trace_quiet[OF extension_no_link(2)] poll_trace_quiet[OF extension_no_link(4)]
        extension_no_link(1,7)
      show ?thesis by auto
    next
      case (long_returns op0 tr1 op1 v op2 tr2 op3 link dl)
      from poll_trace_quiet[OF long_returns(2)] poll_trace_quiet[OF long_returns(4)]
        download_trace_quiet[OF long_returns(7)] long_returns(1,8)
      show ?thesis by auto
    qed
  qed
  with dist show ?thesis by blast
qed


theorem progress_order_witness:
  "\<exists>st'. generateVideoFromImage
            (scripted_env 1 (Some (video_at ''https://v/1?alt=media''))
               (Some (video_at ''https://v/2?alt=media'')) ok_download)
            (Some ''KEY'') (request_of Long) start = Some (Inr ''blob:bytes'', st') \<and>
          prefix (progress_of (trace st'))
            [warming_up, generating, finalizing, extending, downloading_extended]"
proof -
  obtain st' where run: "generateVideoFromImage
            (scripted_env 1 (Some (video_at ''https://v/1?alt=media''))
               (Some (video_at ''https://v/2?alt=media'')) ok_download)
            (Some ''KEY'') (request_of Long) start = Some (Inr ''blob:bytes'', st')"
    using run_long_ok by (rule that)
  from progress_order[OF run]
  have "prefix (progress_of (trace st'))
            [warming_up, generating, finalizing, extending, downloading_extended]"
    by (auto simp: start_def)
  with run show ?thesis by blast
qed

text \<open>
  Claim C6, at an input where the code leaves it. The download of a short video is
  refused with the status text \<^verbatim>\<open>RESOURCE_EXHAUSTED\<close>. The caller receives the error of
  \<^verbatim>\<open>fetchAndCreateUrl\<close> as it was thrown, the \<^verbatim>\<open>catch\<close> block was not entered (nothing
  was logged), and the \<^verbatim>\<open>catch\<close> block would have turned this message into the
  rate-limit text.
\<close>

theorem download_error_bypasses_catch:
  "map_option fst
     (generateVideoFromImage
        (scripted_env 1 (Some (video_at ''https://v/1?alt=media'')) None refused_download)
        (Some ''KEY'') (request_of Short) start) =
     Some (Inl ''Failed to download video: RESOURCE_EXHAUSTED'') \<and>
   map_option (console_errors \<circ> trace \<circ> snd)
     (generateVideoFromImage
        (scripted_env 1 (Some (video_at ''https://v/1?alt=media'')) None refused_download)
        (Some ''KEY'') (request_of Short) start) = Some [] \<and>
   catch_message ''Failed to download video: RESOURCE_EXHAUSTED'' = rate_limit_exceeded"
  unfolding run_short_refused
  by (simp add: catch_message_def)

text \<open>
  Claim C9 fails as stated: on the scripted service whose first operation completes
  without a video, a long run fails with the error of the missing initial video, has
  reported \<^verbatim>\<open>Extending video...\<close> before that, and has submitted the initial request only.
\<close>

theorem extending_precedes_validation_counterexample:
  "map_option fst
     (generateVideoFromImage (scripted_env 1 None None ok_download)
        (Some ''KEY'') (request_of Long) start) = Some (Inl no_initial_video) \<and>
   map_option (progress_of \<circ> trace \<circ> snd)
     (generateVideoFromImage (scripted_env 1 None None ok_download)
        (Some ''KEY'') (request_of Long) start) =
     Some [warming_up, generating, finalizing, extending] \<and>
   map_option (map fst \<circ> submits \<circ> trace \<circ> snd)
     (generateVideoFromImage (scripted_env 1 None None ok_download)
        (Some ''KEY'') (request_of Long) start) = Some [initial_request (request_of Long)] \<and>
   map_option (map first_video \<circ> completions \<circ> trace \<circ> snd)
     (generateVideoFromImage (scripted_env 1 None None ok_download)
        (Some ''KEY'') (request_of Long) start) = Some [None]"
  unfolding run_long_no_video
  by (simp add: is_done_def finished_operation_def pending_operation_def first_video_def)

text \<open>
  Claim C9, amended. In a long run that returns, with a key present, either the initial
  operation never completed, and then \<^verbatim>\<open>Extending video...\<close> was not reported and the
  run failed; or the initial operation was polled to completion, and then the run reported
  finalizing, waited 3000 ms and reported \<^verbatim>\<open>Extending video...\<close>, once, before it looked
  for the first video of that operation: without a video nothing but the failure follows,
  with a video the next event is the only extension submission, built from that video.
\<close>

theorem extending_after_completion:
  assumes "duration p = Long" and "key \<noteq> []"
    and "generateVideoFromImage env (Some key) p st = Some (res, st')"
  shows "\<exists>tr. trace st' = trace st @ tr \<and>
           ((extending \<notin> set (progress_of tr) \<and> completions tr = [] \<and> (\<exists>e. res = Inl e)) \<or>
            (\<exists>op0 tr1 op1 rest.
               tr = [Progress warming_up, Submit (initial_request p) (Inr op0),
                     Progress generating] @ tr1 @
                    [Progress finalizing, Sleep 3000, Progress extending] @ rest \<and>
               poll_trace op0 tr1 (Inr op1) \<and> is_done op1 \<and>
               extending \<notin> set (progress_of rest) \<and>
               (case first_video op1 of
                  None \<Rightarrow> rest = [ConsoleError no_initial_video] \<and> res = Inl no_initial_video
                | Some v \<Rightarrow>
                    (\<exists>r rest'. rest = Submit (extension_request p v) r # rest' \<and>
                               submits rest' = []))))"
  using assms(3,2)
proof (cases rule: run_cases)
  case (initial_submit_throws e)
  then show ?thesis by auto
next
  case (initial_poll_throws op0 tr1 e)
  let ?tr = "Progress warming_up # Submit (initial_request p) (Inr op0) #
             Progress generating # tr1 @ [ConsoleError e]"
  have "trace st' = trace st @ ?tr" using initial_poll_throws by simp
  moreover have "completions ?tr = []"
    using initial_stage_completions[OF initial_poll_throws(1)] by simp
  moreover have "extending \<notin> set (progress_of ?tr)"
    using poll_trace_quiet[OF initial_poll_throws(1)] by simp
  ultimately show ?thesis using initial_poll_throws(2) by blast
next
  case (long_no_video op0 tr1 op1)
  have "is_done op1" using long_no_video by (auto dest: poll_trace_done)
  with long_no_video show ?thesis
    by (intro exI[of _ "[Progress warming_up, Submit (initial_request p) (Inr op0),
                     Progress generating] @ tr1 @
                    [Progress finalizing, Sleep 3000, Progress extending] @
                    [ConsoleError no_initial_video]"] conjI disjI2
        exI[of _ op0] exI[of _ tr1] exI[of _ op1] exI[of _ "[ConsoleError no_initial_video]"])
      simp_all
next
  case (extension_submit_throws op0 tr1 op1 v e)
  have "is_done op1" using extension_submit_throws by (auto dest: poll_trace_done)
  with extension_submit_throws show ?thesis
    by (intro exI[of _ "[Progress warming_up, Submit (initial_request p) (Inr op0),
                     Progress generating] @ tr1 @
                    [Progress finalizing, Sleep 3000, Progress extending] @
                    [Submit (extension_request p v) (Inl e), ConsoleError e]"] conjI disjI2
        exI[of _ op0] exI[of _ tr1] exI[of _ op1]
        exI[of _ "[Submit (extension_request p v) (Inl e), ConsoleError e]"])
      simp_all
next
  case (extension_poll_throws op0 tr1 op1 v op2 tr2 e)
  have "is_done op1" using extension_poll_throws by (auto dest: poll_trace_done)
  with extension_poll_throws poll_trace_quiet[OF extension_poll_throws(4)] show ?thesis
    by (intro exI[of _ "[Progress warming_up, Submit (initial_request p) (Inr op0),
                     Progress generating] @ tr1 @
                    [Progress finalizing, Sleep 3000, Progress extending] @
                    (Submit (extension_request p v) (Inr op2) # tr2 @ [ConsoleError e])"]
        conjI disjI2 exI[of _ op0] exI[of _ tr1] exI[of _ op1]
        exI[of _ "Submit (extension_request p v) (Inr op2) # tr2 @ [ConsoleError e]"])
      simp_all
next
  case (extension_no_link op0 tr1 op1 v op2 tr2 op3)
  have "is_done op1" using extension_no_link by (auto dest: poll_trace_done)
  with extension_no_link poll_trace_quiet[OF extension_no_link(4)] show ?thesis
    by (intro exI[of _ "[Progress warming_up, Submit (initial_request p) (Inr op0),
                     Progress generating] @ tr1 @
                    [Progress finalizing, Sleep 3000, Progress extending] @
                    (Submit (extension_request p v) (Inr op2) # tr2 @
                       [ConsoleError no_extension_link])"]
        conjI disjI2 exI[of _ op0] exI[of _ tr1] exI[of _ op1]
        exI[of _ "Submit (extension_request p v) (Inr op2) # tr2 @
                    [ConsoleError no_extension_link]"])
      simp_all
next
  case (long_returns op0 tr1 op1 v op2 tr2 op3 link dl)
  have "is_done op1" using long_returns by (auto dest: poll_trace_done)
  with long_returns poll_trace_quiet[OF long_returns(4)] download_trace_quiet[OF long_returns(7)]
  show ?thesis
    by (intro exI[of _ "[Progress warming_up, Submit (initial_request p) (Inr op0),
                     Progress generating] @ tr1 @
                    [Progress finalizing, Sleep 3000, Progress extending] @
                    (Submit (extension_request p v) (Inr op2) # tr2 @
                       [Progress downloading_extended] @ dl)"]
        conjI disjI2 exI[of _ op0] exI[of _ tr1] exI[of _ op1]
        exI[of _ "Submit (extension_request p v) (Inr op2) # tr2 @
                    [Progress downloading_extended] @ dl"])
      simp_all
qed (use assms in simp_all)

theorem extending_after_completion_witness:
  "duration (request_of Long) = Long \<and> ''KEY'' \<noteq> [] \<and>
   (\<exists>st'. generateVideoFromImage (scripted_env 1 None None ok_download)
            (Some ''KEY'') (request_of Long) start = Some (Inl no_initial_video, st') \<and>
      (\<exists>tr. trace st' = trace start @ tr \<and>
         ((extending \<notin> set (progress_of tr) \<and> completions tr = [] \<and>
           (\<exists>e. (Inl no_initial_video :: string + string) = Inl e)) \<or>
          (\<exists>op0 tr1 op1 rest.
             tr = [Progress warming_up, Submit (initial_request (request_of Long)) (Inr op0),
                   Progress generating] @ tr1 @
                  [Progress finalizing, Sleep 3000, Progress extending] @ rest \<and>
             poll_trace op0 tr1 (Inr op1) \<and> is_done op1 \<and>
             extending \<notin> set (progress_of rest) \<and>
             (case first_video op1 of
                None \<Rightarrow> rest = [ConsoleError no_initial_video] \<and>
                        (Inl no_initial_video :: string + string) = Inl no_initial_video
              | Some v \<Rightarrow>
                  (\<exists>r rest'. rest = Submit (extension_request (request_of Long) v) r # rest' \<and>
                             submits rest' = []))))))"
proof -
  have d: "duration (request_of Long) = Long" and k: "''KEY'' \<noteq> []"
    by simp_all
  obtain st' where run: "generateVideoFromImage (scripted_env 1 None None ok_download)
            (Some ''KEY'') (request_of Long) start = Some (Inl no_initial_video, st')"
    using run_long_no_video by (rule that)
  from d k run extending_after_completion[OF d k run] show ?thesis
    by (intro conjI exI[of _ st'])
qed



end
